theory Spec2Isabelle
  imports Main
begin

section \<open>String primitives used by url-router.js\<close>

text \<open>
  The script works on the components of \<^verbatim>\<open>window.location\<close> and on the
  \<^verbatim>\<open>href\<close> attribute of anchors. Strings are modelled as \<^typ>\<open>string\<close>; every
  pattern the script searches for or cuts off (\<^verbatim>\<open>'.html'\<close>, \<^verbatim>\<open>'/'\<close>, \<^verbatim>\<open>'http'\<close>, ...)
  is ASCII, so one list element per code unit is what the operations below count.
\<close>

definition startsWith :: "string \<Rightarrow> string \<Rightarrow> bool" where
  \<comment> \<open>\<^verbatim>\<open>s.startsWith(p)\<close>\<close>
  "startsWith s p = (take (length p) s = p)"

definition endsWith :: "string \<Rightarrow> string \<Rightarrow> bool" where
  \<comment> \<open>\<^verbatim>\<open>s.endsWith(p)\<close>\<close>
  "endsWith s p = (length p \<le> length s \<and> drop (length s - length p) s = p)"

fun includes_str :: "string \<Rightarrow> string \<Rightarrow> bool" where
  \<comment> \<open>\<^verbatim>\<open>s.includes(p)\<close>: \<open>p\<close> occurs in \<open>s\<close> at some position\<close>
  "includes_str [] p = (p = [])"
| "includes_str (c # cs) p = (startsWith (c # cs) p \<or> includes_str cs p)"

definition slice :: "string \<Rightarrow> int \<Rightarrow> int \<Rightarrow> string" where
  \<comment> \<open>\<^verbatim>\<open>s.slice(b, e)\<close>: a negative index counts from the end, both are clamped\<close>
  "slice s b e =
     (let len = int (length s);
          lo = (if b < 0 then max (len + b) 0 else min b len);
          hi = (if e < 0 then max (len + e) 0 else min e len)
      in take (nat (hi - lo)) (drop (nat lo) s))"

definition slice_from :: "string \<Rightarrow> int \<Rightarrow> string" where
  \<comment> \<open>\<^verbatim>\<open>s.slice(b)\<close>: the end defaults to the length\<close>
  "slice_from s b = slice s b (int (length s))"

fun split_str :: "string \<Rightarrow> char \<Rightarrow> string list" where
  \<comment> \<open>\<^verbatim>\<open>s.split('/')\<close> for a one-character separator; \<^verbatim>\<open>''.split('/')\<close> is \<^verbatim>\<open>['']\<close>\<close>
  "split_str [] sep = [[]]"
| "split_str (c # cs) sep =
     (if c = sep then [] # split_str cs sep
      else (case split_str cs sep of
              [] \<Rightarrow> [[c]]
            | p # ps \<Rightarrow> (c # p) # ps))"

definition lower_char :: "char \<Rightarrow> char" where
  \<comment> \<open>the twenty-six ASCII capitals are mapped to their small letters\<close>
  "lower_char c =
     (case map_of (zip ''ABCDEFGHIJKLMNOPQRSTUVWXYZ'' ''abcdefghijklmnopqrstuvwxyz'') c of
        Some l \<Rightarrow> l
      | None \<Rightarrow> c)"

definition toLowerCase :: "string \<Rightarrow> string" where
  \<comment> \<open>\<^verbatim>\<open>s.toLowerCase()\<close> on a URL path, which the browser serialises in ASCII\<close>
  "toLowerCase s = map lower_char s"

section \<open>The page: location, metadata, anchors\<close>

record location =
  hostname :: string
  pathname :: string
  search :: string
  hash :: string

datatype listener = handleClick | OtherListener nat

record anchor =
  href :: "string option"
  data_original_href :: "string option"
  click_listeners :: "listener list"

datatype navigation = Replace string | Assign string

text \<open>
  \<open>metas\<close> lists the \<^verbatim>\<open>name\<close> attributes of the document's \<^verbatim>\<open>meta\<close> elements,
  \<open>anchors\<close> the \<^verbatim>\<open>a\<close> elements in document order, and \<open>navigations\<close> logs the
  navigations the script has requested (\<^verbatim>\<open>location.replace\<close>, assignment to
  \<^verbatim>\<open>location.href\<close>).
\<close>

record window =
  location :: location
  metas :: "string list"
  anchors :: "anchor list"
  navigations :: "navigation list"

definition querySelector_meta :: "window \<Rightarrow> string \<Rightarrow> bool" where
  \<comment> \<open>truthiness of \<^verbatim>\<open>document.querySelector('meta[name="n"]')\<close>\<close>
  "querySelector_meta w n = (n \<in> set (metas w))"

definition removeEventListener :: "anchor \<Rightarrow> listener \<Rightarrow> anchor" where
  "removeEventListener link l = link\<lparr>click_listeners := removeAll l (click_listeners link)\<rparr>"

definition addEventListener :: "anchor \<Rightarrow> listener \<Rightarrow> anchor" where
  \<comment> \<open>a listener already registered is not registered twice\<close>
  "addEventListener link l =
     (if l \<in> set (click_listeners link) then link
      else link\<lparr>click_listeners := click_listeners link @ [l]\<rparr>)"

section \<open>Environment\<close>

datatype platform = Vercel | Netlify | GitHub_Pages | Local | Production | Unknown

definition possiblePaths :: "string list" where
  "possiblePaths = [''/Meatlovers/'', ''/meatlovers/'']"

definition firstPart :: "string \<Rightarrow> string option" where
  \<comment> \<open>\<^verbatim>\<open>parts = path.split('/'); if (parts.length > 2 && parts[1] !== '') return '/' + parts[1] + '/'\<close>;
      \<open>None\<close> when the condition fails\<close>
  "firstPart path =
     (let parts = split_str path CHR ''/'' in
      if length parts > 2 \<and> parts ! 1 \<noteq> [] then Some (''/'' @ parts ! 1 @ ''/'') else None)"

definition localBasePath :: "string \<Rightarrow> string option" where
  \<comment> \<open>the body of CASE 4: \<open>Some\<close> where it returns, \<open>None\<close> where it falls through to CASE 5\<close>
  "localBasePath path =
     (case find (\<lambda>basePath. startsWith path basePath) possiblePaths of
        Some basePath \<Rightarrow> Some basePath
      | None \<Rightarrow> firstPart path)"

definition getBasePath :: "window \<Rightarrow> string" where
  "getBasePath w =
     (let path = pathname (location w); host = hostname (location w) in
      if includes_str host ''vercel.app'' \<or> querySelector_meta w ''vercel'' then ''/''
      else if includes_str host ''netlify.app'' \<or> querySelector_meta w ''netlify'' then ''/''
      else if includes_str host ''github.io'' then
        (case firstPart path of Some b \<Rightarrow> b | None \<Rightarrow> ''/'')
      else
        (case (if host = ''localhost'' \<or> host = ''127.0.0.1'' then localBasePath path else None) of
           Some b \<Rightarrow> b
         | None \<Rightarrow>
             if host = ''meatlovers.co.ke'' \<or> host = ''www.meatlovers.co.ke'' \<or>
                \<not> includes_str host ''localhost''
             then ''/'' else ''/''))"

definition getPlatform :: "window \<Rightarrow> platform" where
  "getPlatform w =
     (let host = hostname (location w) in
      if includes_str host ''vercel.app'' then Vercel
      else if includes_str host ''netlify.app'' then Netlify
      else if includes_str host ''github.io'' then GitHub_Pages
      else if host = ''localhost'' \<or> host = ''127.0.0.1'' then Local
      else if host = ''meatlovers.co.ke'' \<or> host = ''www.meatlovers.co.ke'' then Production
      else Unknown)"

record environmentContext =
  basePath :: string
  platform :: platform
  ctx_hostname :: string
  fullPath :: string
  isLocal :: bool

definition getContext :: "window \<Rightarrow> environmentContext" where
  "getContext w =
     \<lparr>basePath = getBasePath w,
      platform = getPlatform w,
      ctx_hostname = hostname (location w),
      fullPath = pathname (location w),
      isLocal = (getPlatform w = Local)\<rparr>"

section \<open>UrlCleaner\<close>

definition cleanCurrentUrl :: "window \<Rightarrow> bool \<times> window" where
  "cleanCurrentUrl w =
     (let path = pathname (location w); platform = getPlatform w in
      if platform = Vercel \<or> platform = Netlify then (False, w)
      else if endsWith (toLowerCase path) ''.html'' then
        (let cleanPath = slice path 0 (- 5);
             newUrl = cleanPath @ search (location w) @ hash (location w)
         in if newUrl \<noteq> pathname (location w)
            then (True, w\<lparr>navigations := navigations w @ [Replace newUrl]\<rparr>)
            else (False, w))
      else (False, w))"

section \<open>LinkFixer\<close>

definition isSkipped :: "string option \<Rightarrow> bool" where
  \<comment> \<open>the guard of ``Skip external links''; \<^verbatim>\<open>!href\<close> holds for \<^verbatim>\<open>null\<close> and for \<^verbatim>\<open>''\<close>\<close>
  "isSkipped h =
     (case h of
        None \<Rightarrow> True
      | Some s \<Rightarrow>
          s = [] \<or> startsWith s ''http'' \<or> startsWith s ''//'' \<or> startsWith s ''#'' \<or>
          startsWith s ''mailto:'' \<or> startsWith s ''tel:'' \<or> startsWith s ''javascript:'')"

definition fixedHref :: "environmentContext \<Rightarrow> string \<Rightarrow> string" where
  "fixedHref ctx h =
     (let f1 = (if endsWith h ''.html'' then slice h 0 (- 5) else h) in
      if startsWith f1 ''/'' then
        (if platform ctx = Local \<and> basePath ctx \<noteq> ''/''
         then basePath ctx @ slice_from f1 1 else f1)
      else f1)"

definition fixLink :: "environmentContext \<Rightarrow> anchor \<Rightarrow> anchor" where
  \<comment> \<open>the body of the \<^verbatim>\<open>forEach\<close> callback\<close>
  "fixLink ctx link =
     (case href link of
        None \<Rightarrow> link
      | Some h \<Rightarrow>
          if isSkipped (Some h) then link
          else
            (let link1 = link\<lparr>data_original_href := Some h\<rparr>;
                 link2 = link1\<lparr>href := Some (fixedHref ctx h)\<rparr>
             in if platform ctx \<noteq> Vercel \<and> platform ctx \<noteq> Netlify
                then addEventListener (removeEventListener link2 handleClick) handleClick
                else link2))"

definition fixAllLinks :: "window \<Rightarrow> window" where
  "fixAllLinks w = (let ctx = getContext w in w\<lparr>anchors := map (fixLink ctx) (anchors w)\<rparr>)"

section \<open>Pages to run the script on\<close>

text \<open>
  A page as first loaded: no query string or fragment, every anchor with its \<^verbatim>\<open>href\<close> as
  written in the markup, nothing stored on it and no listener attached.
\<close>

definition page :: "string \<Rightarrow> string \<Rightarrow> string list \<Rightarrow> string list \<Rightarrow> window" where
  "page host path ms hrefs =
     \<lparr>location = \<lparr>hostname = host, pathname = path, search = [], hash = []\<rparr>,
      metas = ms,
      anchors = map (\<lambda>h. \<lparr>href = Some h, data_original_href = None, click_listeners = []\<rparr>) hrefs,
      navigations = []\<rparr>"

definition slashed :: "string \<Rightarrow> bool" where
  \<comment> \<open>the shape of a base path: it begins and ends with a slash\<close>
  "slashed b = (startsWith b ''/'' \<and> endsWith b ''/'')"

section \<open>Facts about the string primitives\<close>

lemma endsWith_snoc: "endsWith (s @ [c]) [c]"
  by (simp add: endsWith_def)

lemma slice_strip: "0 < n \<Longrightarrow> slice s 0 (- int n) = take (length s - n) s"
  by (simp add: slice_def Let_def nat_diff_distrib' max_def)

lemma slice_from_1: "slice_from s 1 = drop 1 s"
  by (cases s) (simp_all add: slice_from_def slice_def Let_def)

lemma slice_strip5: "slice s 0 (- 5) = take (length s - 5) s"
  using slice_strip [of 5 s] by simp

lemma lower_char_dot: "lower_char c = CHR ''.'' \<Longrightarrow> c = CHR ''.''"
  by (auto simp: lower_char_def split: option.splits if_splits)

lemma html_suffix_not_query:
  assumes e: "endsWith (toLowerCase path) ''.html''"
    and s: "srch = [] \<or> hd srch = CHR ''?''"
    and h: "hsh = [] \<or> hd hsh = CHR ''#''"
  shows "take (length path - 5) path @ srch @ hsh \<noteq> path"
proof
  assume eq: "take (length path - 5) path @ srch @ hsh = path"
  from e have len: "5 \<le> length path"
    and low: "drop (length path - 5) (map lower_char path) = ''.html''"
    by (simp_all add: endsWith_def toLowerCase_def eval_nat_numeral)
  have "take (length path - 5) path @ drop (length path - 5) path = path"
    by simp
  with eq have t: "srch @ hsh = drop (length path - 5) path"
    by (metis same_append_eq)
  with low have m: "map lower_char (srch @ hsh) = ''.html''"
    by (simp add: drop_map)
  then have ne: "srch @ hsh \<noteq> []"
    by auto
  from m ne have "lower_char (hd (srch @ hsh)) = CHR ''.''"
    by (cases "srch @ hsh") auto
  then have "hd (srch @ hsh) = CHR ''.''"
    by (rule lower_char_dot)
  moreover from ne s h have "hd (srch @ hsh) = CHR ''?'' \<or> hd (srch @ hsh) = CHR ''#''"
    by (cases srch) auto
  ultimately show False
    by auto
qed


lemma split_str_nonempty: "split_str s sep \<noteq> []"
  by (induction s) (auto split: list.splits)

lemma split_str_segment:
  "sep \<notin> set seg \<Longrightarrow> split_str (seg @ sep # rest) sep = seg # split_str rest sep"
  by (induction seg) (auto split: list.splits)

lemma firstPart_segment:
  assumes "CHR ''/'' \<notin> set seg" and "seg \<noteq> []"
  shows "firstPart (''/'' @ seg @ ''/'' @ rest) = Some (''/'' @ seg @ ''/'')"
proof -
  from assms(1) have "split_str (''/'' @ seg @ ''/'' @ rest) CHR ''/'' =
      [] # seg # split_str rest CHR ''/''"
    by (simp add: split_str_segment)
  moreover obtain p ps where "split_str rest CHR ''/'' = p # ps"
    using split_str_nonempty [of rest "CHR ''/''"] by (cases "split_str rest CHR ''/''") auto
  ultimately show ?thesis
    using assms(2) by (simp add: firstPart_def)
qed

lemma firstPart_shape:
  assumes "firstPart path = Some b"
  shows "startsWith b ''/'' \<and> endsWith b ''/''"
proof -
  from assms obtain seg where b: "b = ''/'' @ seg @ ''/''"
    by (auto simp: firstPart_def Let_def split: if_splits)
  have "endsWith ((''/'' @ seg) @ ''/'') ''/''"
    by (rule endsWith_snoc)
  with b show ?thesis
    by (simp add: startsWith_def)
qed

lemma localBasePath_shape:
  assumes "localBasePath path = Some b"
  shows "startsWith b ''/'' \<and> endsWith b ''/''"
proof (cases "find (\<lambda>basePath. startsWith path basePath) possiblePaths")
  case None
  with assms have "firstPart path = Some b"
    by (simp add: localBasePath_def)
  then show ?thesis
    by (rule firstPart_shape)
next
  case (Some p)
  with assms have "b = p"
    by (simp add: localBasePath_def)
  moreover from Some have "p \<in> set possiblePaths"
    by (auto simp: find_Some_iff)
  ultimately have "b = ''/Meatlovers/'' \<or> b = ''/meatlovers/''"
    by (simp add: possiblePaths_def)
  then show ?thesis
    by (auto simp: startsWith_def endsWith_def)
qed

lemma slashed_root: "slashed ''/''"
  by (simp add: slashed_def startsWith_def endsWith_def)

lemma slashed_case:
  "(\<And>b. x = Some b \<Longrightarrow> slashed b) \<Longrightarrow> slashed d \<Longrightarrow>
   slashed (case x of Some b \<Rightarrow> b | None \<Rightarrow> d)"
  by (cases x) simp_all

lemma slashed_if: "slashed a \<Longrightarrow> slashed b \<Longrightarrow> slashed (if c then a else b)"
  by simp

lemma getBasePath_slashed: "slashed (getBasePath w)"
proof -
  let ?path = "pathname (location w)"
  have gh: "slashed (case firstPart ?path of Some b \<Rightarrow> b | None \<Rightarrow> ''/'')"
    by (rule slashed_case)
      (simp_all add: slashed_def firstPart_shape slashed_root [unfolded slashed_def])
  have lc: "slashed (case (if c then localBasePath ?path else None) of
                       Some b \<Rightarrow> b | None \<Rightarrow> ''/'')" for c
    by (rule slashed_case)
      (simp_all add: slashed_def localBasePath_shape slashed_root [unfolded slashed_def]
        split: if_splits)
  show ?thesis
    unfolding getBasePath_def Let_def if_cancel
    by (intro slashed_if slashed_root gh lc)
qed

section \<open>Facts about one pass of the link fixer\<close>

lemma fixAllLinks_length: "length (anchors (fixAllLinks w)) = length (anchors w)"
  by (simp add: fixAllLinks_def Let_def)

lemma fixAllLinks_nth:
  "i < length (anchors w) \<Longrightarrow>
   anchors (fixAllLinks w) ! i = fixLink (getContext w) (anchors w ! i)"
  by (simp add: fixAllLinks_def Let_def)

lemma fixLink_skipped: "isSkipped (href link) \<Longrightarrow> fixLink ctx link = link"
  by (cases "href link") (simp_all add: fixLink_def)

lemma fixLink_href:
  "href link = Some h \<Longrightarrow> \<not> isSkipped (Some h) \<Longrightarrow>
   href (fixLink ctx link) = Some (fixedHref ctx h)"
  by (simp add: fixLink_def Let_def addEventListener_def removeEventListener_def)

lemma fixAllLinks_iter_frame:
  "length (anchors ((fixAllLinks ^^ n) w)) = length (anchors w)"
  by (induction n) (simp_all add: fixAllLinks_length)

section \<open>Evaluation on concrete pages\<close>

lemmas page_simps = page_def getBasePath_def getPlatform_def getContext_def localBasePath_def
  firstPart_def possiblePaths_def querySelector_meta_def startsWith_def endsWith_def Let_def
  fixAllLinks_def fixLink_def fixedHref_def isSkipped_def addEventListener_def
  removeEventListener_def slice_def slice_from_def cleanCurrentUrl_def toLowerCase_def
  lower_char_def

section \<open>The base path\<close>

text \<open>
  C9. For every hostname, path and document metadata, the base path computed by
  \<open>getBasePath\<close> is a non-empty string that begins with \<^verbatim>\<open>/\<close> and ends with \<^verbatim>\<open>/\<close>.
\<close>

theorem getBasePath_slashes:
  "getBasePath w \<noteq> [] \<and> startsWith (getBasePath w) ''/'' \<and> endsWith (getBasePath w) ''/''"
proof -
  have shape: "startsWith (getBasePath w) ''/'' \<and> endsWith (getBasePath w) ''/''"
    using getBasePath_slashed [of w] by (simp add: slashed_def)
  then have "getBasePath w \<noteq> []"
    by (auto simp: startsWith_def)
  with shape show ?thesis
    by simp
qed

theorem getBasePath_slashes_witness:
  "getBasePath \<lparr>location = \<lparr>hostname = ''localhost'', pathname = ''/shop/menu.html'',
                              search = [], hash = []\<rparr>,
                 metas = [], anchors = [], navigations = []\<rparr> = ''/shop/'' \<and>
   startsWith ''/shop/'' ''/'' \<and> endsWith ''/shop/'' ''/''"
proof -
  let ?w = "\<lparr>location = \<lparr>hostname = ''localhost'', pathname = ''/shop/menu.html'',
                          search = [], hash = []\<rparr>,
             metas = [], anchors = [], navigations = []\<rparr>"
  have v: "getBasePath ?w = ''/shop/''"
    by (simp add: getBasePath_def localBasePath_def firstPart_def possiblePaths_def
        querySelector_meta_def startsWith_def Let_def)
  from getBasePath_slashes [of ?w] v show ?thesis
    by simp
qed

text \<open>
  The GitHub Pages rule in general: on a \<^verbatim>\<open>github.io\<close> host that is not taken for Vercel
  or Netlify, a path \<^verbatim>\<open>/seg/rest\<close> with a non-empty first segment has the base path
  \<^verbatim>\<open>/seg/\<close>.
\<close>

lemma github_basePath_rule:
  assumes "includes_str (hostname (location w)) ''github.io''"
    and "\<not> includes_str (hostname (location w)) ''vercel.app''"
    and "\<not> includes_str (hostname (location w)) ''netlify.app''"
    and "\<not> querySelector_meta w ''vercel''" and "\<not> querySelector_meta w ''netlify''"
    and "pathname (location w) = ''/'' @ seg @ ''/'' @ rest"
    and "CHR ''/'' \<notin> set seg" and "seg \<noteq> []"
  shows "getBasePath w = ''/'' @ seg @ ''/''"
  using assms(1-6) firstPart_segment [OF assms(7,8), of rest]
  by (simp add: getBasePath_def)

text \<open>
  C3. The claim that hostname \<^verbatim>\<open>alice.github.io\<close> with path
  \<^verbatim>\<open>/alice.github.io/repo/menu.html\<close> has base path \<^verbatim>\<open>/repo/\<close> fails: the first
  non-empty segment of that path is \<^verbatim>\<open>alice.github.io\<close>.
\<close>

theorem github_pages_counterexample:
  "getBasePath (page ''alice.github.io'' ''/alice.github.io/repo/menu.html'' [] []) \<noteq> ''/repo/''"
  by (simp add: page_simps)

text \<open>
  C3, amended. For hostname \<^verbatim>\<open>alice.github.io\<close> with path
  \<^verbatim>\<open>/alice.github.io/repo/menu.html\<close>, on a page without a \<^verbatim>\<open>vercel\<close> or
  \<^verbatim>\<open>netlify\<close> metadata marker, \<open>getBasePath\<close> returns \<^verbatim>\<open>/alice.github.io/\<close>: a slash, the
  first path segment, a slash.
\<close>

theorem github_pages_first_segment:
  assumes "hostname (location w) = ''alice.github.io''"
    and "pathname (location w) = ''/alice.github.io/repo/menu.html''"
    and "\<not> querySelector_meta w ''vercel''" and "\<not> querySelector_meta w ''netlify''"
  shows "getBasePath w = ''/alice.github.io/''"
proof -
  have "getBasePath w = ''/'' @ ''alice.github.io'' @ ''/''"
  proof (rule github_basePath_rule [where rest = "''repo/menu.html''"])
    show "includes_str (hostname (location w)) ''github.io''"
      and "\<not> includes_str (hostname (location w)) ''vercel.app''"
      and "\<not> includes_str (hostname (location w)) ''netlify.app''"
      using assms(1) by (simp_all add: startsWith_def)
    show "pathname (location w) = ''/'' @ ''alice.github.io'' @ ''/'' @ ''repo/menu.html''"
      using assms(2) by simp
  qed (use assms(3,4) in simp_all)
  then show ?thesis
    by simp
qed

theorem github_pages_first_segment_witness:
  "getBasePath (page ''alice.github.io'' ''/alice.github.io/repo/menu.html'' [] [''/menu'']) =
     ''/alice.github.io/''"
  using github_pages_first_segment
    [of "page ''alice.github.io'' ''/alice.github.io/repo/menu.html'' [] [''/menu'']"]
  by (simp add: page_def querySelector_meta_def)

text \<open>
  C6 (base path and one pass). For hostname \<^verbatim>\<open>localhost\<close> with path
  \<^verbatim>\<open>/Meatlovers/menu.html\<close>, on a page without a \<^verbatim>\<open>vercel\<close> or \<^verbatim>\<open>netlify\<close> metadata
  marker, \<open>getBasePath\<close> returns \<^verbatim>\<open>/Meatlovers/\<close>, and one pass of \<open>fixAllLinks\<close> rewrites
  an anchor whose \<^verbatim>\<open>href\<close> is \<^verbatim>\<open>/menu\<close> to \<^verbatim>\<open>/Meatlovers/menu\<close>.
\<close>

theorem local_meatlovers_menu:
  assumes "hostname (location w) = ''localhost''"
    and "pathname (location w) = ''/Meatlovers/menu.html''"
    and "\<not> querySelector_meta w ''vercel''" and "\<not> querySelector_meta w ''netlify''"
    and "i < length (anchors w)"
    and "href (anchors w ! i) = Some ''/menu''"
  shows "getBasePath w = ''/Meatlovers/'' \<and>
         href (anchors (fixAllLinks w) ! i) = Some ''/Meatlovers/menu''"
proof -
  from assms(1-4) have b: "getBasePath w = ''/Meatlovers/''"
    by (simp add: getBasePath_def localBasePath_def possiblePaths_def startsWith_def)
  from assms(1) have p: "getPlatform w = Local"
    by (simp add: getPlatform_def startsWith_def)
  have n: "\<not> isSkipped (Some ''/menu'')"
    by (simp add: isSkipped_def startsWith_def)
  from b p have f: "fixedHref (getContext w) ''/menu'' = ''/Meatlovers/menu''"
    by (simp add: fixedHref_def getContext_def endsWith_def startsWith_def slice_from_1)
  from assms(5) have "anchors (fixAllLinks w) ! i = fixLink (getContext w) (anchors w ! i)"
    by (rule fixAllLinks_nth)
  with fixLink_href [OF assms(6) n, of "getContext w"] f b show ?thesis
    by simp
qed

theorem local_meatlovers_menu_witness:
  "getBasePath (page ''localhost'' ''/Meatlovers/menu.html'' [] [''/menu'']) = ''/Meatlovers/'' \<and>
   href (anchors (fixAllLinks (page ''localhost'' ''/Meatlovers/menu.html'' [] [''/menu''])) ! 0) =
     Some ''/Meatlovers/menu''"
  using local_meatlovers_menu [of "page ''localhost'' ''/Meatlovers/menu.html'' [] [''/menu'']" 0]
  by (simp add: page_def querySelector_meta_def)

text \<open>
  C7. The claim that every hostname outside rules 1 to 4 is classified as Production fails:
  \<^verbatim>\<open>example.com\<close> contains none of the substrings, is not a local host and does not
  contain \<^verbatim>\<open>localhost\<close>, and \<open>getPlatform\<close> returns \<^verbatim>\<open>'Unknown'\<close> for it.
\<close>

theorem custom_domain_counterexample:
  "\<not> includes_str ''example.com'' ''vercel.app'' \<and>
   \<not> includes_str ''example.com'' ''netlify.app'' \<and>
   \<not> includes_str ''example.com'' ''github.io'' \<and>
   ''example.com'' \<noteq> ''localhost'' \<and> ''example.com'' \<noteq> ''127.0.0.1'' \<and>
   \<not> includes_str ''example.com'' ''localhost'' \<and>
   getPlatform (page ''example.com'' ''/menu'' [] []) = Unknown \<and>
   getPlatform (page ''example.com'' ''/menu'' [] []) \<noteq> Production"
  by (simp add: page_def getPlatform_def startsWith_def)

text \<open>
  C7, amended. For every hostname that contains none of \<^verbatim>\<open>vercel.app\<close>, \<^verbatim>\<open>netlify.app\<close>,
  \<^verbatim>\<open>github.io\<close>, is neither \<^verbatim>\<open>localhost\<close> nor \<^verbatim>\<open>127.0.0.1\<close>, and equals the
  production domain (with or without \<^verbatim>\<open>www.\<close>) or does not contain \<^verbatim>\<open>localhost\<close>, the
  base path is \<^verbatim>\<open>/\<close>; the platform is Production when the hostname equals the production
  domain (with or without \<^verbatim>\<open>www.\<close>) and Unknown otherwise.
\<close>

theorem custom_domain_root:
  assumes "\<not> includes_str (hostname (location w)) ''vercel.app''"
    and "\<not> includes_str (hostname (location w)) ''netlify.app''"
    and "\<not> includes_str (hostname (location w)) ''github.io''"
    and "hostname (location w) \<noteq> ''localhost''"
    and "hostname (location w) \<noteq> ''127.0.0.1''"
    and "hostname (location w) = ''meatlovers.co.ke'' \<or>
         hostname (location w) = ''www.meatlovers.co.ke'' \<or>
         \<not> includes_str (hostname (location w)) ''localhost''"
  shows "getBasePath w = ''/'' \<and>
         getPlatform w =
           (if hostname (location w) = ''meatlovers.co.ke'' \<or>
               hostname (location w) = ''www.meatlovers.co.ke''
            then Production else Unknown)"
  using assms(1-5) by (simp add: getBasePath_def getPlatform_def Let_def)

theorem custom_domain_root_witness:
  "getBasePath (page ''www.meatlovers.co.ke'' ''/menu.html'' [] []) = ''/'' \<and>
   getPlatform (page ''www.meatlovers.co.ke'' ''/menu.html'' [] []) = Production \<and>
   getBasePath (page ''example.com'' ''/shop/menu.html'' [] []) = ''/'' \<and>
   getPlatform (page ''example.com'' ''/shop/menu.html'' [] []) = Unknown"
  using custom_domain_root [of "page ''www.meatlovers.co.ke'' ''/menu.html'' [] []"]
    custom_domain_root [of "page ''example.com'' ''/shop/menu.html'' [] []"]
  by (simp add: page_def startsWith_def)

text \<open>
  C4 (the code at a failing input). On \<^verbatim>\<open>meatlovers.co.ke\<close> with a \<^verbatim>\<open>vercel\<close> metadata
  marker in the document, \<open>getBasePath\<close> takes the marker for Vercel and returns \<^verbatim>\<open>/\<close>,
  but \<open>getPlatform\<close> looks at the hostname alone and returns \<^verbatim>\<open>'Production'\<close>: the URL
  cleaner redirects \<^verbatim>\<open>/menu.html\<close> to \<^verbatim>\<open>/menu\<close> and the link fixer attaches
  \<open>handleClick\<close>.
\<close>

theorem vercel_marker_not_platform:
  "getBasePath (page ''meatlovers.co.ke'' ''/menu.html'' [''vercel''] [''about.html'']) = ''/'' \<and>
   getPlatform (page ''meatlovers.co.ke'' ''/menu.html'' [''vercel''] [''about.html'']) = Production \<and>
   cleanCurrentUrl (page ''meatlovers.co.ke'' ''/menu.html'' [''vercel''] [''about.html'']) =
     (True, (page ''meatlovers.co.ke'' ''/menu.html'' [''vercel''] [''about.html''])
              \<lparr>navigations := [Replace ''/menu'']\<rparr>) \<and>
   map click_listeners
     (anchors (fixAllLinks (page ''meatlovers.co.ke'' ''/menu.html'' [''vercel''] [''about.html'']))) =
     [[handleClick]]"
  by (simp add: page_simps)

theorem vercel_marker_not_platform_witness:
  "getPlatform (page ''meatlovers.co.ke'' ''/menu.html'' [''vercel''] [''about.html'']) \<noteq> Vercel \<and>
   fst (cleanCurrentUrl (page ''meatlovers.co.ke'' ''/menu.html'' [''vercel''] [''about.html'']))"
  using vercel_marker_not_platform by simp

section \<open>The URL cleaner\<close>

text \<open>
  C5. On a platform other than Vercel and Netlify, when the path ends with \<^verbatim>\<open>.html\<close>
  (in any letter case) and the stripped path followed by the query string and the fragment
  differs from the current path, \<open>cleanCurrentUrl\<close> requests exactly one navigation, a
  \<^verbatim>\<open>location.replace\<close> to that URL, and returns true. When the path does not end with
  \<^verbatim>\<open>.html\<close>, or the platform is Vercel or Netlify, it requests no navigation and returns
  false.
\<close>

theorem cleanCurrentUrl_normalizes:
  "(getPlatform w \<noteq> Vercel \<and> getPlatform w \<noteq> Netlify \<and>
    endsWith (toLowerCase (pathname (location w))) ''.html'' \<and>
    take (length (pathname (location w)) - 5) (pathname (location w)) @
      search (location w) @ hash (location w) \<noteq> pathname (location w)
    \<longrightarrow> cleanCurrentUrl w =
          (True, w\<lparr>navigations := navigations w @
             [Replace (take (length (pathname (location w)) - 5) (pathname (location w)) @
                search (location w) @ hash (location w))]\<rparr>)) \<and>
   (getPlatform w = Vercel \<or> getPlatform w = Netlify \<or>
    \<not> endsWith (toLowerCase (pathname (location w))) ''.html''
    \<longrightarrow> cleanCurrentUrl w = (False, w))"
  by (simp add: cleanCurrentUrl_def Let_def slice_strip5)

theorem cleanCurrentUrl_normalizes_witness:
  "cleanCurrentUrl
     \<lparr>location = \<lparr>hostname = ''localhost'', pathname = ''/Meatlovers/Menu.HTML'',
                   search = ''?q=1'', hash = ''#top''\<rparr>,
      metas = [], anchors = [], navigations = []\<rparr> =
   (True,
     \<lparr>location = \<lparr>hostname = ''localhost'', pathname = ''/Meatlovers/Menu.HTML'',
                   search = ''?q=1'', hash = ''#top''\<rparr>,
      metas = [], anchors = [], navigations = [Replace ''/Meatlovers/Menu?q=1#top'']\<rparr>) \<and>
   cleanCurrentUrl (page ''shop.vercel.app'' ''/menu.html'' [] []) =
     (False, page ''shop.vercel.app'' ''/menu.html'' [] []) \<and>
   cleanCurrentUrl (page ''localhost'' ''/Meatlovers/menu'' [] []) =
     (False, page ''localhost'' ''/Meatlovers/menu'' [] [])"
proof -
  let ?w = "\<lparr>location = \<lparr>hostname = ''localhost'', pathname = ''/Meatlovers/Menu.HTML'',
                   search = ''?q=1'', hash = ''#top''\<rparr>,
      metas = [], anchors = [], navigations = []\<rparr>"
  have p1: "getPlatform ?w = Local"
    by (simp add: getPlatform_def startsWith_def)
  have e1: "endsWith (toLowerCase (pathname (location ?w))) ''.html''"
    by (simp add: endsWith_def toLowerCase_def lower_char_def)
  have a: "cleanCurrentUrl ?w =
     (True, ?w\<lparr>navigations := navigations ?w @ [Replace ''/Meatlovers/Menu?q=1#top'']\<rparr>)"
    using cleanCurrentUrl_normalizes [of ?w] p1 e1 by simp
  have p2: "getPlatform (page ''shop.vercel.app'' ''/menu.html'' [] []) = Vercel"
    by (simp add: page_def getPlatform_def startsWith_def)
  have b: "cleanCurrentUrl (page ''shop.vercel.app'' ''/menu.html'' [] []) =
     (False, page ''shop.vercel.app'' ''/menu.html'' [] [])"
    using cleanCurrentUrl_normalizes [of "page ''shop.vercel.app'' ''/menu.html'' [] []"] p2
    by simp
  have e3: "\<not> endsWith (toLowerCase (pathname (location (page ''localhost'' ''/Meatlovers/menu'' [] [])))) ''.html''"
    by (simp add: page_def endsWith_def toLowerCase_def lower_char_def)
  have c: "cleanCurrentUrl (page ''localhost'' ''/Meatlovers/menu'' [] []) =
     (False, page ''localhost'' ''/Meatlovers/menu'' [] [])"
    using cleanCurrentUrl_normalizes [of "page ''localhost'' ''/Meatlovers/menu'' [] []"] e3
    by simp
  from a b c show ?thesis
    by simp
qed

text \<open>
  The comparison of the new URL with the path never fails for a location as the browser
  serialises it: a query string is empty or begins with \<^verbatim>\<open>?\<close>, a fragment is empty or
  begins with \<^verbatim>\<open>#\<close>.
\<close>

lemma cleanCurrentUrl_redirects_html:
  assumes "getPlatform w \<noteq> Vercel" and "getPlatform w \<noteq> Netlify"
    and "endsWith (toLowerCase (pathname (location w))) ''.html''"
    and "search (location w) = [] \<or> hd (search (location w)) = CHR ''?''"
    and "hash (location w) = [] \<or> hd (hash (location w)) = CHR ''#''"
  shows "fst (cleanCurrentUrl w)"
  using assms html_suffix_not_query [OF assms(3,4,5)]
  by (simp add: cleanCurrentUrl_def Let_def slice_strip5)

section \<open>The link fixer\<close>

text \<open>
  C8. An anchor whose \<^verbatim>\<open>href\<close> begins with \<^verbatim>\<open>http\<close>, \<^verbatim>\<open>//\<close>, \<^verbatim>\<open>#\<close>, \<^verbatim>\<open>mailto:\<close>,
  \<^verbatim>\<open>tel:\<close> or \<^verbatim>\<open>javascript:\<close> comes out of a pass of \<open>fixAllLinks\<close> with the same
  \<^verbatim>\<open>href\<close>, the same \<^verbatim>\<open>data-original-href\<close> (none is stored) and the same click
  listeners (none is attached), whatever the platform.
\<close>

theorem external_links_untouched:
  assumes "i < length (anchors w)"
    and "href (anchors w ! i) = Some h"
    and "startsWith h ''http'' \<or> startsWith h ''//'' \<or> startsWith h ''#'' \<or>
         startsWith h ''mailto:'' \<or> startsWith h ''tel:'' \<or> startsWith h ''javascript:''"
  shows "href (anchors (fixAllLinks w) ! i) = Some h \<and>
         data_original_href (anchors (fixAllLinks w) ! i) = data_original_href (anchors w ! i) \<and>
         click_listeners (anchors (fixAllLinks w) ! i) = click_listeners (anchors w ! i)"
proof -
  from assms(2,3) have "isSkipped (href (anchors w ! i))"
    by (auto simp: isSkipped_def)
  then have "fixLink (getContext w) (anchors w ! i) = anchors w ! i"
    by (rule fixLink_skipped)
  with assms(1,2) show ?thesis
    by (simp add: fixAllLinks_nth)
qed

theorem external_links_untouched_witness:
  "map href (anchors (fixAllLinks (page ''localhost'' ''/Meatlovers/menu.html'' []
      [''mailto:chef@meatlovers.co.ke'', ''/menu'']))) =
     [Some ''mailto:chef@meatlovers.co.ke'', Some ''/Meatlovers/menu''] \<and>
   data_original_href (anchors (fixAllLinks (page ''localhost'' ''/Meatlovers/menu.html'' []
      [''mailto:chef@meatlovers.co.ke'', ''/menu''])) ! 0) = None \<and>
   click_listeners (anchors (fixAllLinks (page ''localhost'' ''/Meatlovers/menu.html'' []
      [''mailto:chef@meatlovers.co.ke'', ''/menu''])) ! 0) = []"
proof -
  let ?w = "page ''localhost'' ''/Meatlovers/menu.html'' [] [''mailto:chef@meatlovers.co.ke'', ''/menu'']"
  have l: "0 < length (anchors ?w)"
    by (simp add: page_def)
  have h: "href (anchors ?w ! 0) = Some ''mailto:chef@meatlovers.co.ke''"
    by (simp add: page_def)
  have s: "startsWith ''mailto:chef@meatlovers.co.ke'' ''mailto:''"
    by (simp add: startsWith_def)
  have a: "anchors ?w ! 0 = \<lparr>href = Some ''mailto:chef@meatlovers.co.ke'', data_original_href = None, click_listeners = []\<rparr>"
    by (simp add: page_def)
  have rest: "map href (anchors (fixAllLinks ?w)) = [href (anchors (fixAllLinks ?w) ! 0), Some ''/Meatlovers/menu'']"
    by (simp add: page_simps)
  from external_links_untouched [of 0 ?w "''mailto:chef@meatlovers.co.ke''"] l h s a rest
  show ?thesis
    by simp
qed

text \<open>
  C10. An anchor whose \<^verbatim>\<open>href\<close> begins with the four characters \<^verbatim>\<open>http\<close> meets the
  guard that skips external links, also when it is a relative page name such as
  \<^verbatim>\<open>httpd-guide.html\<close>: after any number of passes of \<open>fixAllLinks\<close> the anchor is as it
  was, with its \<^verbatim>\<open>href\<close> not rewritten and no click listener attached.
\<close>

theorem http_prefix_skipped:
  assumes "i < length (anchors w)"
    and "href (anchors w ! i) = Some h"
    and "startsWith h ''http''"
  shows "isSkipped (href (anchors w ! i)) \<and>
         anchors ((fixAllLinks ^^ n) w) ! i = anchors w ! i"
proof
  from assms(2,3) show skip: "isSkipped (href (anchors w ! i))"
    by (simp add: isSkipped_def)
  show "anchors ((fixAllLinks ^^ n) w) ! i = anchors w ! i"
  proof (induction n)
    case 0
    show ?case by simp
  next
    case (Suc n)
    let ?v = "(fixAllLinks ^^ n) w"
    from assms(1) have "i < length (anchors ?v)"
      by (simp add: fixAllLinks_iter_frame)
    then have "anchors (fixAllLinks ?v) ! i = fixLink (getContext ?v) (anchors ?v ! i)"
      by (rule fixAllLinks_nth)
    also from skip Suc.IH have "\<dots> = anchors ?v ! i"
      by (simp add: fixLink_skipped)
    finally show ?case
      using Suc.IH by simp
  qed
qed

theorem http_prefix_skipped_witness:
  "isSkipped (Some ''httpd-guide.html'') \<and>
   anchors ((fixAllLinks ^^ 2) (page ''localhost'' ''/Meatlovers/index.html'' [] [''httpd-guide.html''])) =
     [\<lparr>href = Some ''httpd-guide.html'', data_original_href = None, click_listeners = []\<rparr>]"
proof -
  let ?w = "page ''localhost'' ''/Meatlovers/index.html'' [] [''httpd-guide.html'']"
  have l: "0 < length (anchors ?w)"
    by (simp add: page_def)
  have a: "anchors ?w = [\<lparr>href = Some ''httpd-guide.html'', data_original_href = None, click_listeners = []\<rparr>]"
    by (simp add: page_def)
  have s: "startsWith ''httpd-guide.html'' ''http''"
    by (simp add: startsWith_def)
  have len: "length (anchors ((fixAllLinks ^^ 2) ?w)) = 1"
    by (simp add: fixAllLinks_iter_frame page_def)
  from http_prefix_skipped [of 0 ?w "''httpd-guide.html''" 2] l a s
  have "isSkipped (Some ''httpd-guide.html'') \<and> anchors ((fixAllLinks ^^ 2) ?w) ! 0 =
     \<lparr>href = Some ''httpd-guide.html'', data_original_href = None, click_listeners = []\<rparr>"
    by simp
  with len show ?thesis
    by (cases "anchors ((fixAllLinks ^^ 2) ?w)") auto
qed

text \<open>
  C1 (the code at a failing input). On \<^verbatim>\<open>localhost\<close> under \<^verbatim>\<open>/Meatlovers/\<close> the first pass
  rewrites \<^verbatim>\<open>/menu\<close> to \<^verbatim>\<open>/Meatlovers/menu\<close>; the second pass reads the rewritten
  \<^verbatim>\<open>href\<close>, not the stored original, and prepends the base path again.
\<close>

theorem second_pass_prefixes_again:
  "getPlatform (page ''localhost'' ''/Meatlovers/menu.html'' [] [''/menu'']) = Local \<and>
   getBasePath (page ''localhost'' ''/Meatlovers/menu.html'' [] [''/menu'']) = ''/Meatlovers/'' \<and>
   map href (anchors (fixAllLinks (page ''localhost'' ''/Meatlovers/menu.html'' [] [''/menu'']))) =
     [Some ''/Meatlovers/menu''] \<and>
   map href (anchors (fixAllLinks (fixAllLinks
      (page ''localhost'' ''/Meatlovers/menu.html'' [] [''/menu''])))) =
     [Some ''/Meatlovers/Meatlovers/menu'']"
  by (simp add: page_simps)

theorem second_pass_prefixes_again_witness:
  "map href (anchors (fixAllLinks (fixAllLinks
      (page ''localhost'' ''/Meatlovers/menu.html'' [] [''/menu''])))) \<noteq>
   map href (anchors (fixAllLinks (page ''localhost'' ''/Meatlovers/menu.html'' [] [''/menu''])))"
  using second_pass_prefixes_again by simp

text \<open>
  C2 (the code at a failing input). The first pass stores \<^verbatim>\<open>menu.html\<close> in
  \<^verbatim>\<open>data-original-href\<close> and rewrites the \<^verbatim>\<open>href\<close> to \<^verbatim>\<open>menu\<close>; the second pass
  stores again, without looking for a stored value, and the attribute then holds
  \<^verbatim>\<open>menu\<close>.
\<close>

theorem second_pass_overwrites_original:
  "map data_original_href
     (anchors (fixAllLinks (page ''meatlovers.co.ke'' ''/'' [] [''menu.html'']))) =
     [Some ''menu.html''] \<and>
   map data_original_href
     (anchors (fixAllLinks (fixAllLinks (page ''meatlovers.co.ke'' ''/'' [] [''menu.html''])))) =
     [Some ''menu'']"
  by (simp add: page_simps)

theorem second_pass_overwrites_original_witness:
  "map data_original_href
     (anchors (fixAllLinks (fixAllLinks (page ''meatlovers.co.ke'' ''/'' [] [''menu.html''])))) \<noteq>
   map data_original_href
     (anchors (fixAllLinks (page ''meatlovers.co.ke'' ''/'' [] [''menu.html''])))"
  using second_pass_overwrites_original by simp


end
